theory Spec2Isabelle
  imports Main
begin

section \<open>Data model: accounts, messages, the social graph\<close>

text \<open>
  The route handlers of \<^verbatim>\<open>app.py\<close> work on four tables. A row of the accounts table
  and a row of the messages table are records; the follow and like relations are
  existence-only edges with a composite key, hence sets of pairs.
\<close>

record user =
  u_id :: nat
  username :: string
  email :: string
  password :: string
  image_url :: string
  header_image_url :: string
  bio :: string
  location :: string

record message =
  m_id :: nat
  m_text :: string
  timestamp :: int
  user_id :: nat

text \<open>
  \<open>follows\<close> holds (follower id, followed id), \<open>likes\<close> holds (account id, message id).
  The two counters are the store's id sequences.
\<close>

record db =
  users :: "user list"
  messages :: "message list"
  follows :: "(nat \<times> nat) set"
  likes :: "(nat \<times> nat) set"
  next_user_id :: nat
  next_message_id :: nat

text \<open>The session holds at most the entry \<^verbatim>\<open>CURR_USER_KEY\<close>: the acting account's id.\<close>

type_synonym session = "nat option"

section \<open>Requests and responses\<close>

datatype http_method = GET | POST

text \<open>
  What a handler reads of a request: the method, whether the anti-forgery token of the
  submitted form is present and valid, whether the field validators of the route's form
  accept the payload, the payload, the referrer header and the server's clock.
\<close>

record request =
  meth :: http_method
  csrf_token_ok :: bool
  fields_ok :: bool
  f_username :: string
  f_password :: string
  f_email :: string
  f_image_url :: string
  f_header_image_url :: string
  f_bio :: string
  f_text :: string
  referrer :: "string option"
  now :: int

datatype target = Path string | UserPage nat | Referrer "string option"

datatype exn = IntegrityError | ValueError

datatype response =
    Redirect target
  | Render string
  | RenderMessages string "message list"
  | NotFound
  | Forbidden
  | Unhandled exn

text \<open>
  What a request leaves behind: the response, the messages flashed (text and category),
  the committed store and the session.
\<close>

record outcome =
  resp :: response
  flashed :: "(string \<times> string) list"
  store :: db
  sess :: session

text \<open>
  What \<^verbatim>\<open>app.py\<close> imports from \<^verbatim>\<open>models.py\<close> and the password library without
  defining it: the two default image URLs and the one-way password hash with its check.
\<close>

record env =
  DEFAULT_IMAGE_URL :: string
  DEFAULT_HEADER_IMAGE_URL :: string
  generate_password_hash :: "string \<Rightarrow> string"
  check_password_hash :: "string \<Rightarrow> string \<Rightarrow> bool"

section \<open>Forms\<close>

definition is_submitted :: "request \<Rightarrow> bool" where
  "is_submitted req = (meth req = POST)"

text \<open>
  Modelled from the spec: \<^verbatim>\<open>forms.py\<close> is not among the sources. \<^verbatim>\<open>CSRFProtectForm\<close> is
  the form with no field but the anti-forgery token ("CSRF-only"); it validates a
  submitted request whose token is valid.
\<close>

definition csrf_validate_on_submit :: "request \<Rightarrow> bool" where
  "csrf_validate_on_submit req = (is_submitted req \<and> csrf_token_ok req)"

text \<open>
  Modelled from the spec: the forms with fields (signup, edit, message-create) carry the
  same token and their own field validators: "validate, then act".
\<close>

definition form_validate_on_submit :: "request \<Rightarrow> bool" where
  "form_validate_on_submit req = (is_submitted req \<and> csrf_token_ok req \<and> fields_ok req)"

section \<open>The store\<close>

text \<open>\<^verbatim>\<open>User.query.get\<close> and \<^verbatim>\<open>Message.query.get\<close>: the row with that primary key, if any.\<close>

definition get_user :: "db \<Rightarrow> nat \<Rightarrow> user option" where
  "get_user d i = find (\<lambda>u. u_id u = i) (users d)"

definition get_message :: "db \<Rightarrow> nat \<Rightarrow> message option" where
  "get_message d i = find (\<lambda>m. m_id m = i) (messages d)"

text \<open>
  Modelled from the spec: the relationship \<^verbatim>\<open>following\<close> of \<^verbatim>\<open>models.py\<close>, the accounts
  on the followed side of the follow edges that start at the account.
\<close>

definition following :: "db \<Rightarrow> user \<Rightarrow> user list" where
  "following d u = filter (\<lambda>v. (u_id u, u_id v) \<in> follows d) (users d)"

text \<open>
  Modelled from the spec: the relationship \<^verbatim>\<open>liked_messages\<close> of \<^verbatim>\<open>models.py\<close>, the
  messages the account has a like edge to.
\<close>

definition liked_messages :: "db \<Rightarrow> user \<Rightarrow> message list" where
  "liked_messages d u = filter (\<lambda>m. (u_id u, m_id m) \<in> likes d) (messages d)"

text \<open>
  Modelled from the spec: \<^verbatim>\<open>User.authenticate\<close> of \<^verbatim>\<open>models.py\<close> "returns the Account if
  the username exists and the password verifies against the stored hash; otherwise
  returns no match".
\<close>

definition authenticate :: "env \<Rightarrow> db \<Rightarrow> string \<Rightarrow> string \<Rightarrow> user option" where
  "authenticate e d name pw =
     (case find (\<lambda>u. username u = name) (users d) of
        None \<Rightarrow> None
      | Some u \<Rightarrow> if check_password_hash e (password u) pw then Some u else None)"

text \<open>
  Modelled from the spec: the uniqueness constraints of the accounts table ("username
  and email are each globally unique; violation is a constraint failure, not a
  pre-check"). \<open>unique_violation rows name mail\<close> holds when one of the rows has the
  username or the email; the commit that would write a second such row raises
  \<^verbatim>\<open>IntegrityError\<close> and leaves the store as it was.
\<close>

definition unique_violation :: "user list \<Rightarrow> string \<Rightarrow> string \<Rightarrow> bool" where
  "unique_violation rows name mail =
     list_ex (\<lambda>v. username v = name \<or> email v = mail) rows"

text \<open>
  Modelled from the spec: \<^verbatim>\<open>User.signup\<close> of \<^verbatim>\<open>models.py\<close> "creates Account with hashed
  credential; default imageURL/headerImageURL applied when absent". The row gets the
  next id of the sequence.
\<close>

definition new_user :: "env \<Rightarrow> db \<Rightarrow> string \<Rightarrow> string \<Rightarrow> string \<Rightarrow> string \<Rightarrow> user" where
  "new_user e d name pw mail img =
     \<lparr>u_id = next_user_id d, username = name, email = mail,
      password = generate_password_hash e pw, image_url = img,
      header_image_url = DEFAULT_HEADER_IMAGE_URL e, bio = [], location = []\<rparr>"

text \<open>
  Modelled from the spec: deleting a row takes the edges that reference it along
  ("foreign-key cascades").
\<close>

definition delete_messages_of :: "nat \<Rightarrow> db \<Rightarrow> db" where
  "delete_messages_of i d =
     d\<lparr>messages := filter (\<lambda>m. user_id m \<noteq> i) (messages d),
       likes := {e \<in> likes d. \<not> list_ex (\<lambda>m. user_id m = i \<and> m_id m = snd e) (messages d)}\<rparr>"

definition delete_message_row :: "nat \<Rightarrow> db \<Rightarrow> db" where
  "delete_message_row i d =
     d\<lparr>messages := filter (\<lambda>m. m_id m \<noteq> i) (messages d),
       likes := {e \<in> likes d. snd e \<noteq> i}\<rparr>"

definition delete_user_row :: "nat \<Rightarrow> db \<Rightarrow> db" where
  "delete_user_row i d =
     d\<lparr>users := filter (\<lambda>v. u_id v \<noteq> i) (users d),
       follows := {e \<in> follows d. fst e \<noteq> i \<and> snd e \<noteq> i},
       likes := {e \<in> likes d. fst e \<noteq> i}\<rparr>"

section \<open>Login, logout and the per-request globals\<close>

definition do_login :: "user \<Rightarrow> session \<Rightarrow> session" where
  "do_login u s = Some (u_id u)"

definition do_logout :: "session \<Rightarrow> session" where
  "do_logout s = (if s \<noteq> None then None else s)"

text \<open>\<^verbatim>\<open>g.user\<close>: the row of the session's account, if the session names one that exists.\<close>

definition add_user_to_g :: "db \<Rightarrow> session \<Rightarrow> user option" where
  "add_user_to_g d s = (case s of Some i \<Rightarrow> get_user d i | None \<Rightarrow> None)"

text \<open>The answer every gated handler gives when the gate is closed.\<close>

definition unauthorized :: "db \<Rightarrow> session \<Rightarrow> outcome" where
  "unauthorized d s =
     \<lparr>resp = Redirect (Path ''/''), flashed = [(''Access unauthorized.'', ''danger'')],
      store = d, sess = s\<rparr>"

section \<open>Signup and logout\<close>

definition signup :: "env \<Rightarrow> db \<Rightarrow> session \<Rightarrow> request \<Rightarrow> outcome" where
  "signup e d s req =
     (let s1 = (if s \<noteq> None then None else s) in
      if form_validate_on_submit req then
        (let u = new_user e d (f_username req) (f_password req) (f_email req)
                   (if f_image_url req \<noteq> [] then f_image_url req else DEFAULT_IMAGE_URL e)
         in if unique_violation (users d) (username u) (email u) then
              \<lparr>resp = Render ''users/signup.html'',
               flashed = [(''Username/Email must be unique'', ''danger'')],
               store = d, sess = s1\<rparr>
            else
              \<lparr>resp = Redirect (Path ''/''), flashed = [],
               store = d\<lparr>users := users d @ [u], next_user_id := Suc (next_user_id d)\<rparr>,
               sess = do_login u s1\<rparr>)
      else
        \<lparr>resp = Render ''users/signup.html'', flashed = [], store = d, sess = s1\<rparr>)"

definition logout :: "db \<Rightarrow> session \<Rightarrow> request \<Rightarrow> outcome" where
  "logout d s req =
     (case add_user_to_g d s of
        None \<Rightarrow> unauthorized d s
      | Some u \<Rightarrow>
          if \<not> csrf_validate_on_submit req then unauthorized d s
          else \<lparr>resp = Redirect (Path ''/login''), flashed = [(''Logged out'', ''success'')],
                store = d, sess = do_logout s\<rparr>)"

section \<open>Account routes\<close>

text \<open>
  The follow edges are a set, so following an account twice leaves one edge (the spec
  leaves re-following unspecified).
\<close>

definition start_following :: "db \<Rightarrow> session \<Rightarrow> request \<Rightarrow> nat \<Rightarrow> outcome" where
  "start_following d s req follow_id =
     (case add_user_to_g d s of
        None \<Rightarrow> unauthorized d s
      | Some u \<Rightarrow>
          if \<not> csrf_validate_on_submit req then unauthorized d s
          else
            (case get_user d follow_id of
               None \<Rightarrow> \<lparr>resp = NotFound, flashed = [], store = d, sess = s\<rparr>
             | Some followed_user \<Rightarrow>
                 \<lparr>resp = Redirect (Referrer (referrer req)), flashed = [],
                  store = d\<lparr>follows := insert (u_id u, u_id followed_user) (follows d)\<rparr>,
                  sess = s\<rparr>))"

text \<open>
  \<^verbatim>\<open>User.query.get\<close> hands \<^verbatim>\<open>None\<close> to \<^verbatim>\<open>remove\<close> when the id is unknown, and
  \<^verbatim>\<open>remove\<close> raises \<^verbatim>\<open>ValueError\<close> for whatever is not in the list; nothing catches it,
  and the commit is not reached.
\<close>

definition stop_following :: "db \<Rightarrow> session \<Rightarrow> request \<Rightarrow> nat \<Rightarrow> outcome" where
  "stop_following d s req follow_id =
     (case add_user_to_g d s of
        None \<Rightarrow> unauthorized d s
      | Some u \<Rightarrow>
          if \<not> csrf_validate_on_submit req then unauthorized d s
          else
            (case get_user d follow_id of
               None \<Rightarrow> \<lparr>resp = Unhandled ValueError, flashed = [], store = d, sess = s\<rparr>
             | Some followed_user \<Rightarrow>
                 if followed_user \<in> set (following d u) then
                   \<lparr>resp = Redirect (Referrer (referrer req)), flashed = [],
                    store = d\<lparr>follows := follows d - {(u_id u, u_id followed_user)}\<rparr>,
                    sess = s\<rparr>
                 else \<lparr>resp = Unhandled ValueError, flashed = [], store = d, sess = s\<rparr>))"

text \<open>
  The commit of an edit that takes another row's username or email raises
  \<^verbatim>\<open>IntegrityError\<close>, which \<^verbatim>\<open>profile\<close> does not catch.
\<close>

definition profile :: "env \<Rightarrow> db \<Rightarrow> session \<Rightarrow> request \<Rightarrow> outcome" where
  "profile e d s req =
     (case add_user_to_g d s of
        None \<Rightarrow> unauthorized d s
      | Some u \<Rightarrow>
          if form_validate_on_submit req then
            (case authenticate e d (username u) (f_password req) of
               Some a \<Rightarrow>
                 (let u' = u\<lparr>username := f_username req,
                             email := f_email req,
                             image_url := (if f_image_url req \<noteq> [] then f_image_url req
                                           else DEFAULT_IMAGE_URL e),
                             header_image_url :=
                               (if f_header_image_url req \<noteq> [] then f_header_image_url req
                                else DEFAULT_HEADER_IMAGE_URL e),
                             bio := f_bio req\<rparr>
                  in if unique_violation (filter (\<lambda>v. u_id v \<noteq> u_id u) (users d))
                          (username u') (email u')
                     then \<lparr>resp = Unhandled IntegrityError, flashed = [], store = d, sess = s\<rparr>
                     else
                       \<lparr>resp = Redirect (UserPage (u_id u)), flashed = [],
                        store = d\<lparr>users := map (\<lambda>v. if u_id v = u_id u then u' else v) (users d)\<rparr>,
                        sess = s\<rparr>)
             | None \<Rightarrow>
                 \<lparr>resp = Render ''users/edit.html'', flashed = [(''Incorrect password'', ''danger'')],
                  store = d, sess = s\<rparr>)
          else \<lparr>resp = Render ''users/edit.html'', flashed = [], store = d, sess = s\<rparr>)"

definition delete_user :: "db \<Rightarrow> session \<Rightarrow> request \<Rightarrow> outcome" where
  "delete_user d s req =
     (case add_user_to_g d s of
        None \<Rightarrow> unauthorized d s
      | Some u \<Rightarrow>
          if \<not> csrf_validate_on_submit req then unauthorized d s
          else
            \<lparr>resp = Redirect (Path ''/signup''), flashed = [],
             store = delete_user_row (u_id u) (delete_messages_of (u_id u) d),
             sess = do_logout s\<rparr>)"

section \<open>Message routes\<close>

text \<open>
  Modelled from the spec: a new message's timestamp is "server-assigned, defaults to
  creation time"; its id is the next of the sequence.
\<close>

definition add_message :: "db \<Rightarrow> session \<Rightarrow> request \<Rightarrow> outcome" where
  "add_message d s req =
     (case add_user_to_g d s of
        None \<Rightarrow> unauthorized d s
      | Some u \<Rightarrow>
          if form_validate_on_submit req then
            (let msg = \<lparr>m_id = next_message_id d, m_text = f_text req,
                        timestamp = now req, user_id = u_id u\<rparr>
             in \<lparr>resp = Redirect (UserPage (u_id u)), flashed = [],
                 store = d\<lparr>messages := messages d @ [msg],
                            next_message_id := Suc (next_message_id d)\<rparr>,
                 sess = s\<rparr>)
          else \<lparr>resp = Render ''messages/create.html'', flashed = [], store = d, sess = s\<rparr>)"

text \<open>
  \<^verbatim>\<open>like_message\<close> asks the form first and \<^verbatim>\<open>g.user\<close> second; what it prints of the
  form's errors on the server's console is not part of the outcome.
\<close>

definition like_message :: "db \<Rightarrow> session \<Rightarrow> request \<Rightarrow> nat \<Rightarrow> outcome" where
  "like_message d s req msg_id =
     (if \<not> csrf_validate_on_submit req then unauthorized d s
      else
        (case add_user_to_g d s of
           None \<Rightarrow> unauthorized d s
         | Some u \<Rightarrow>
             (case get_message d msg_id of
                None \<Rightarrow> \<lparr>resp = NotFound, flashed = [], store = d, sess = s\<rparr>
              | Some msg \<Rightarrow>
                  if user_id msg = u_id u then
                    \<lparr>resp = Forbidden, flashed = [], store = d, sess = s\<rparr>
                  else
                    \<lparr>resp = Redirect (Referrer (referrer req)), flashed = [],
                     store = d\<lparr>likes :=
                       (if msg \<in> set (liked_messages d u)
                        then likes d - {(u_id u, m_id msg)}
                        else insert (u_id u, m_id msg) (likes d))\<rparr>,
                     sess = s\<rparr>)))"

definition delete_message :: "db \<Rightarrow> session \<Rightarrow> request \<Rightarrow> nat \<Rightarrow> outcome" where
  "delete_message d s req message_id =
     (case add_user_to_g d s of
        None \<Rightarrow> unauthorized d s
      | Some u \<Rightarrow>
          if \<not> csrf_validate_on_submit req then unauthorized d s
          else
            (case get_message d message_id of
               None \<Rightarrow> \<lparr>resp = NotFound, flashed = [], store = d, sess = s\<rparr>
             | Some msg \<Rightarrow>
                 \<lparr>resp = Redirect (UserPage (u_id u)), flashed = [],
                  store = delete_message_row (m_id msg) d, sess = s\<rparr>))"

section \<open>Homepage\<close>

text \<open>
  The query of \<^verbatim>\<open>homepage\<close>: filter on the owner, order by timestamp descending, limit
  100. Rows with equal timestamps come in the order the stable sort leaves them.
\<close>

definition homepage :: "db \<Rightarrow> session \<Rightarrow> outcome" where
  "homepage d s =
     (case add_user_to_g d s of
        Some u \<Rightarrow>
          (let following_ids = map u_id (following d u) @ [u_id u];
               msgs = take 100
                        (sort_key (\<lambda>m. - timestamp m)
                           (filter (\<lambda>m. user_id m \<in> set following_ids) (messages d)))
           in \<lparr>resp = RenderMessages ''home.html'' msgs, flashed = [], store = d, sess = s\<rparr>)
      | None \<Rightarrow> \<lparr>resp = Render ''home-anon.html'', flashed = [], store = d, sess = s\<rparr>)"

section \<open>A small store to run the handlers on\<close>

definition demo_env :: env where
  "demo_env =
     \<lparr>DEFAULT_IMAGE_URL = ''/static/images/default-pic.png'',
      DEFAULT_HEADER_IMAGE_URL = ''/static/images/warbler-hero.jpg'',
      generate_password_hash = (\<lambda>pw. CHR ''#'' # pw),
      check_password_hash = (\<lambda>h pw. h = CHR ''#'' # pw)\<rparr>"

definition mk_user :: "nat \<Rightarrow> string \<Rightarrow> user" where
  "mk_user i name =
     \<lparr>u_id = i, username = name, email = name @ ''@x.org'', password = ''#secret'',
      image_url = [], header_image_url = [], bio = [], location = []\<rparr>"

definition mk_message :: "nat \<Rightarrow> int \<Rightarrow> nat \<Rightarrow> message" where
  "mk_message i t owner = \<lparr>m_id = i, m_text = ''hi'', timestamp = t, user_id = owner\<rparr>"

text \<open>
  Account 1 follows account 2 and likes its message 1; account 2 wrote messages 1 and 2,
  account 3 message 3, account 1 message 4.
\<close>

definition demo_db :: db where
  "demo_db =
     \<lparr>users = [mk_user 1 ''u1'', mk_user 2 ''u2'', mk_user 3 ''u3''],
      messages = [mk_message 1 1 2, mk_message 2 2 2, mk_message 3 3 3, mk_message 4 4 1],
      follows = {(1, 2)},
      likes = {(1, 1)},
      next_user_id = 4,
      next_message_id = 5\<rparr>"

definition demo_post :: request where
  "demo_post =
     \<lparr>meth = POST, csrf_token_ok = True, fields_ok = True,
      f_username = ''u4'', f_password = ''secret'', f_email = ''u4@x.org'',
      f_image_url = [], f_header_image_url = [], f_bio = ''bio'', f_text = ''hello'',
      referrer = Some ''/users/1'', now = 5\<rparr>"

lemmas demo_defs = demo_db_def demo_post_def demo_env_def mk_user_def mk_message_def

section \<open>The home feed\<close>

lemma sort_key_desc_sorted:
  "sorted_wrt (\<lambda>a b. timestamp b \<le> timestamp a) (sort_key (\<lambda>m. - timestamp m) xs)"
proof -
  have "sorted (map (\<lambda>m. - timestamp m) (sort_key (\<lambda>m. - timestamp m) xs))"
    by (rule sorted_sort_key)
  then show ?thesis
    by (simp add: sorted_map)
qed

lemma take_desc_sorted:
  "sorted_wrt (\<lambda>a b. timestamp b \<le> timestamp a) (take n (sort_key (\<lambda>m. - timestamp m) xs))"
  by (rule sorted_wrt_take [OF sort_key_desc_sorted])

text \<open>
  C1. For a signed-in viewer the homepage renders the feed, and the feed holds only
  messages of the store whose owner is the viewer or an account the viewer follows, has
  at most 100 entries, and is ordered by timestamp, newest first (two messages may carry
  the same timestamp, so the order is descending, not strictly descending).
\<close>

theorem homepage_feed:
  assumes "add_user_to_g d s = Some u"
  shows "\<exists>msgs. resp (homepage d s) = RenderMessages ''home.html'' msgs
           \<and> (\<forall>m \<in> set msgs. m \<in> set (messages d)
                \<and> user_id m \<in> {u_id u} \<union> u_id ` {v \<in> set (users d). (u_id u, u_id v) \<in> follows d})
           \<and> length msgs \<le> 100
           \<and> sorted_wrt (\<lambda>a b. timestamp b \<le> timestamp a) msgs"
proof -
  let ?ids = "map u_id (following d u) @ [u_id u]"
  let ?sel = "filter (\<lambda>m. user_id m \<in> set ?ids) (messages d)"
  let ?msgs = "take 100 (sort_key (\<lambda>m. - timestamp m) ?sel)"
  have r: "resp (homepage d s) = RenderMessages ''home.html'' ?msgs"
    using assms by (simp add: homepage_def Let_def)
  have sub: "set ?msgs \<subseteq> set ?sel"
    using set_take_subset [of 100 "sort_key (\<lambda>m. - timestamp m) ?sel"] by simp
  have own: "\<forall>m \<in> set ?msgs. m \<in> set (messages d)
       \<and> user_id m \<in> {u_id u} \<union> u_id ` {v \<in> set (users d). (u_id u, u_id v) \<in> follows d}"
    using sub by (auto simp: following_def)
  have len: "length ?msgs \<le> 100" by simp
  have srt: "sorted_wrt (\<lambda>a b. timestamp b \<le> timestamp a) ?msgs"
    by (rule take_desc_sorted)
  from r own len srt show ?thesis by blast
qed

theorem homepage_feed_witness:
  "add_user_to_g demo_db (Some 1) = Some (mk_user 1 ''u1'')
   \<and> resp (homepage demo_db (Some 1)) =
       RenderMessages ''home.html'' [mk_message 4 4 1, mk_message 2 2 2, mk_message 1 1 2]
   \<and> (\<exists>msgs. resp (homepage demo_db (Some 1)) = RenderMessages ''home.html'' msgs
           \<and> (\<forall>m \<in> set msgs. m \<in> set (messages demo_db)
                \<and> user_id m \<in> {u_id (mk_user 1 ''u1'')}
                     \<union> u_id ` {v \<in> set (users demo_db). (u_id (mk_user 1 ''u1''), u_id v) \<in> follows demo_db})
           \<and> length msgs \<le> 100
           \<and> sorted_wrt (\<lambda>a b. timestamp b \<le> timestamp a) msgs)"
proof -
  have h: "add_user_to_g demo_db (Some 1) = Some (mk_user 1 ''u1'')"
    by (simp add: add_user_to_g_def get_user_def demo_defs)
  have v: "resp (homepage demo_db (Some 1)) =
       RenderMessages ''home.html'' [mk_message 4 4 1, mk_message 2 2 2, mk_message 1 1 2]"
    unfolding homepage_def h by (simp add: following_def Let_def demo_defs)
  from h v homepage_feed [OF h] show ?thesis by blast
qed

section \<open>Lookups and the demo request\<close>

lemma get_message_SomeD:
  "get_message d i = Some msg \<Longrightarrow> msg \<in> set (messages d) \<and> m_id msg = i"
  by (auto simp: get_message_def find_Some_iff)

lemma get_user_SomeD:
  "get_user d i = Some v \<Longrightarrow> v \<in> set (users d) \<and> u_id v = i"
  by (auto simp: get_user_def find_Some_iff)

lemma demo_g_user: "add_user_to_g demo_db (Some 1) = Some (mk_user 1 ''u1'')"
  by (simp add: add_user_to_g_def get_user_def demo_defs)

lemma demo_csrf: "csrf_validate_on_submit demo_post"
  by (simp add: csrf_validate_on_submit_def is_submitted_def demo_post_def)

lemma demo_form: "form_validate_on_submit demo_post"
  by (simp add: form_validate_on_submit_def is_submitted_def demo_post_def)

section \<open>Likes\<close>

text \<open>
  C2. When the acting account owns the message, a like request that passed the gate is
  answered with Forbidden, whatever the like edges are, and the store (so every like
  edge) and the session stay as they were.
\<close>

theorem like_own_message_forbidden:
  assumes "add_user_to_g d s = Some u"
    and "csrf_validate_on_submit req"
    and "get_message d msg_id = Some msg"
    and "user_id msg = u_id u"
  shows "like_message d s req msg_id = \<lparr>resp = Forbidden, flashed = [], store = d, sess = s\<rparr>"
  using assms by (simp add: like_message_def)

theorem like_own_message_forbidden_witness:
  "get_message demo_db 4 = Some (mk_message 4 4 1)
   \<and> user_id (mk_message 4 4 1) = u_id (mk_user 1 ''u1'')
   \<and> (1, 4) \<notin> likes demo_db
   \<and> like_message demo_db (Some 1) demo_post 4 =
       \<lparr>resp = Forbidden, flashed = [], store = demo_db, sess = Some 1\<rparr>
   \<and> (1, 4) \<in> likes (demo_db\<lparr>likes := {(1, 4)}\<rparr>)
   \<and> like_message (demo_db\<lparr>likes := {(1, 4)}\<rparr>) (Some 1) demo_post 4 =
       \<lparr>resp = Forbidden, flashed = [], store = demo_db\<lparr>likes := {(1, 4)}\<rparr>, sess = Some 1\<rparr>"
proof -
  let ?d = "demo_db\<lparr>likes := {(1, 4)}\<rparr>"
  have m: "get_message demo_db 4 = Some (mk_message 4 4 1)"
    by (simp add: get_message_def demo_defs)
  have o: "user_id (mk_message 4 4 1) = u_id (mk_user 1 ''u1'')"
    by (simp add: demo_defs)
  have g': "add_user_to_g ?d (Some 1) = Some (mk_user 1 ''u1'')"
    by (simp add: add_user_to_g_def get_user_def demo_defs)
  have m': "get_message ?d 4 = Some (mk_message 4 4 1)"
    by (simp add: get_message_def demo_defs)
  have a: "(1, 4) \<notin> likes demo_db" by (simp add: demo_defs)
  have b: "(1, 4) \<in> likes ?d" by simp
  from m o a b like_own_message_forbidden [OF demo_g_user demo_csrf m o]
    like_own_message_forbidden [OF g' demo_csrf m' o]
  show ?thesis by blast
qed

lemma liked_iff:
  "get_message d i = Some msg \<Longrightarrow>
     msg \<in> set (liked_messages d u) \<longleftrightarrow> (u_id u, i) \<in> likes d"
  by (auto simp: liked_messages_def dest: get_message_SomeD)

lemma like_message_toggle:
  assumes "add_user_to_g d s = Some u"
    and "csrf_validate_on_submit req"
    and "get_message d i = Some msg"
    and "user_id msg \<noteq> u_id u"
  shows "like_message d s req i =
     \<lparr>resp = Redirect (Referrer (referrer req)), flashed = [],
      store = d\<lparr>likes := (if (u_id u, i) \<in> likes d then likes d - {(u_id u, i)}
                           else insert (u_id u, i) (likes d))\<rparr>,
      sess = s\<rparr>"
  using assms liked_iff [OF assms(3), of u] get_message_SomeD [OF assms(3)]
  by (simp add: like_message_def)

lemma likes_update_frame:
  "add_user_to_g (d\<lparr>likes := l\<rparr>) s = add_user_to_g d s"
  "get_message (d\<lparr>likes := l\<rparr>) i = get_message d i"
  by (simp_all add: add_user_to_g_def get_user_def get_message_def split: option.splits)

text \<open>
  C5. For an account and a message another account owns, the first like request flips
  the edge between the two, and a second one in sequence gives back the store the first
  one started from.
\<close>

theorem like_message_twice:
  assumes "add_user_to_g d s = Some u"
    and "csrf_validate_on_submit req"
    and "get_message d i = Some msg"
    and "user_id msg \<noteq> u_id u"
  shows "((u_id u, i) \<in> likes (store (like_message d s req i))) \<noteq> ((u_id u, i) \<in> likes d)
     \<and> sess (like_message d s req i) = s
     \<and> store (like_message (store (like_message d s req i)) s req i) = d"
proof -
  let ?l = "if (u_id u, i) \<in> likes d then likes d - {(u_id u, i)}
            else insert (u_id u, i) (likes d)"
  let ?d1 = "d\<lparr>likes := ?l\<rparr>"
  have one: "like_message d s req i =
      \<lparr>resp = Redirect (Referrer (referrer req)), flashed = [], store = ?d1, sess = s\<rparr>"
    by (rule like_message_toggle [OF assms])
  have g1: "add_user_to_g ?d1 s = Some u"
    using assms(1) by (simp only: likes_update_frame)
  have m1: "get_message ?d1 i = Some msg"
    using assms(3) by (simp only: likes_update_frame)
  have two: "like_message ?d1 s req i =
      \<lparr>resp = Redirect (Referrer (referrer req)), flashed = [],
       store = ?d1\<lparr>likes := (if (u_id u, i) \<in> likes ?d1 then likes ?d1 - {(u_id u, i)}
                           else insert (u_id u, i) (likes ?d1))\<rparr>,
       sess = s\<rparr>"
    by (rule like_message_toggle [OF g1 assms(2) m1 assms(4)])
  have undo: "(if (u_id u, i) \<in> likes ?d1 then likes ?d1 - {(u_id u, i)}
               else insert (u_id u, i) (likes ?d1)) = likes d"
    by auto
  have flip: "((u_id u, i) \<in> ?l) \<noteq> ((u_id u, i) \<in> likes d)"
    by auto
  have "store (like_message ?d1 s req i) = ?d1\<lparr>likes := likes d\<rparr>"
    by (simp only: two undo outcome.select_convs)
  also have "\<dots> = d"
    by simp
  finally have st: "store (like_message ?d1 s req i) = d" .
  show ?thesis
    unfolding one using flip st by simp
qed

theorem like_message_twice_witness:
  "get_message demo_db 3 = Some (mk_message 3 3 3)
   \<and> user_id (mk_message 3 3 3) \<noteq> u_id (mk_user 1 ''u1'')
   \<and> (1, 3) \<notin> likes demo_db
   \<and> (1, 3) \<in> likes (store (like_message demo_db (Some 1) demo_post 3))
   \<and> store (like_message (store (like_message demo_db (Some 1) demo_post 3)) (Some 1) demo_post 3)
       = demo_db"
proof -
  have m: "get_message demo_db 3 = Some (mk_message 3 3 3)"
    by (simp add: get_message_def demo_defs)
  have o: "user_id (mk_message 3 3 3) \<noteq> u_id (mk_user 1 ''u1'')"
    by (simp add: demo_defs)
  have a: "(1, 3) \<notin> likes demo_db" by (simp add: demo_defs)
  from m o a like_message_twice [OF demo_g_user demo_csrf m o]
  show ?thesis by (simp add: demo_defs)
qed

section \<open>Unfollowing\<close>

text \<open>
  C9. When no follow edge leads from the acting account to the id of the request,
  \<^verbatim>\<open>stop_following\<close> ends in the unhandled \<^verbatim>\<open>ValueError\<close> of the removal and commits
  nothing: the handler never checks for the edge.
\<close>

theorem stop_following_missing_edge:
  assumes "add_user_to_g d s = Some u"
    and "csrf_validate_on_submit req"
    and "(u_id u, follow_id) \<notin> follows d"
  shows "stop_following d s req follow_id =
     \<lparr>resp = Unhandled ValueError, flashed = [], store = d, sess = s\<rparr>"
proof (cases "get_user d follow_id")
  case None
  with assms show ?thesis by (simp add: stop_following_def)
next
  case (Some v)
  then have "u_id v = follow_id" by (simp add: get_user_SomeD)
  with assms(3) have "v \<notin> set (following d u)" by (simp add: following_def)
  with assms Some show ?thesis by (simp add: stop_following_def)
qed

theorem stop_following_missing_edge_witness:
  "(u_id (mk_user 1 ''u1''), 3) \<notin> follows demo_db
   \<and> stop_following demo_db (Some 1) demo_post 3 =
       \<lparr>resp = Unhandled ValueError, flashed = [], store = demo_db, sess = Some 1\<rparr>"
proof -
  have e: "(u_id (mk_user 1 ''u1''), 3) \<notin> follows demo_db"
    by (simp add: demo_defs)
  from e stop_following_missing_edge [OF demo_g_user demo_csrf e]
  show ?thesis by blast
qed

section \<open>Deleting an account\<close>

text \<open>
  C6. A delete request that passed the gate removes every message the account owns and
  the account's row: the messages left are those of the other accounts, none of them
  references the deleted id, no account row has it, and the session is anonymous.
\<close>

theorem delete_user_cascade:
  assumes "add_user_to_g d s = Some u"
    and "csrf_validate_on_submit req"
  shows "resp (delete_user d s req) = Redirect (Path ''/signup'')
     \<and> sess (delete_user d s req) = None
     \<and> messages (store (delete_user d s req)) = filter (\<lambda>m. user_id m \<noteq> u_id u) (messages d)
     \<and> users (store (delete_user d s req)) = filter (\<lambda>v. u_id v \<noteq> u_id u) (users d)
     \<and> (\<forall>m \<in> set (messages (store (delete_user d s req))). user_id m \<noteq> u_id u)
     \<and> (\<forall>v \<in> set (users (store (delete_user d s req))). u_id v \<noteq> u_id u)"
  using assms
  by (simp add: delete_user_def delete_user_row_def delete_messages_of_def do_logout_def)

theorem delete_user_cascade_witness:
  "messages (store (delete_user demo_db (Some 2) demo_post)) = [mk_message 3 3 3, mk_message 4 4 1]
   \<and> users (store (delete_user demo_db (Some 2) demo_post)) = [mk_user 1 ''u1'', mk_user 3 ''u3'']
   \<and> sess (delete_user demo_db (Some 2) demo_post) = None
   \<and> 2 \<notin> user_id ` set (messages (store (delete_user demo_db (Some 2) demo_post)))
   \<and> 2 \<notin> u_id ` set (users (store (delete_user demo_db (Some 2) demo_post)))"
proof -
  have g: "add_user_to_g demo_db (Some 2) = Some (mk_user 2 ''u2'')"
    by (simp add: add_user_to_g_def get_user_def demo_defs)
  have i: "u_id (mk_user 2 ''u2'') = 2" by (simp add: mk_user_def)
  from delete_user_cascade [OF g demo_csrf]
  show ?thesis unfolding i by (auto simp: demo_defs)
qed

section \<open>Signup\<close>

text \<open>
  C8. A valid signup submission whose username or email an existing account already has
  fails on the store's uniqueness constraint: the signup form is rendered again with the
  one message "Username/Email must be unique", and the store is the one before the
  request, so no account row was added.
\<close>

theorem signup_duplicate:
  assumes "form_validate_on_submit req"
    and "\<exists>v \<in> set (users d). username v = f_username req \<or> email v = f_email req"
  shows "signup e d s req =
     \<lparr>resp = Render ''users/signup.html'',
      flashed = [(''Username/Email must be unique'', ''danger'')],
      store = d, sess = None\<rparr>"
proof -
  have "unique_violation (users d) (f_username req) (f_email req)"
    using assms(2) by (simp add: unique_violation_def list_ex_iff)
  with assms(1) show ?thesis
    by (simp add: signup_def new_user_def Let_def)
qed

theorem signup_duplicate_witness:
  "form_validate_on_submit (demo_post\<lparr>f_username := ''u2''\<rparr>)
   \<and> (\<exists>v \<in> set (users demo_db). username v = f_username (demo_post\<lparr>f_username := ''u2''\<rparr>)
         \<or> email v = f_email (demo_post\<lparr>f_username := ''u2''\<rparr>))
   \<and> signup demo_env demo_db (Some 1) (demo_post\<lparr>f_username := ''u2''\<rparr>) =
       \<lparr>resp = Render ''users/signup.html'',
        flashed = [(''Username/Email must be unique'', ''danger'')],
        store = demo_db, sess = None\<rparr>"
proof -
  let ?req = "demo_post\<lparr>f_username := ''u2''\<rparr>"
  have f: "form_validate_on_submit ?req"
    by (simp add: form_validate_on_submit_def is_submitted_def demo_post_def)
  have dup: "\<exists>v \<in> set (users demo_db). username v = f_username ?req \<or> email v = f_email ?req"
    by (simp add: demo_defs)
  from f dup signup_duplicate [OF f dup, of demo_env "Some 1"]
  show ?thesis by blast
qed

text \<open>
  C10. Every signup request drops the acting account from the session first: after a
  GET, after a submission that fails validation and after one that hits the uniqueness
  constraint the session is anonymous and the store unchanged; whenever no account row
  was added the session is anonymous; and the session never keeps the previous account,
  it is empty or names the new row.
\<close>

theorem signup_drops_session:
  "(meth req = GET \<longrightarrow> sess (signup e d s req) = None \<and> store (signup e d s req) = d)
   \<and> (\<not> form_validate_on_submit req \<longrightarrow>
        sess (signup e d s req) = None \<and> store (signup e d s req) = d)
   \<and> ((\<exists>v \<in> set (users d). username v = f_username req \<or> email v = f_email req) \<longrightarrow>
        sess (signup e d s req) = None \<and> store (signup e d s req) = d)
   \<and> (users (store (signup e d s req)) = users d \<longrightarrow> sess (signup e d s req) = None)
   \<and> sess (signup e d s req) \<in> {None, Some (next_user_id d)}"
  by (auto simp: signup_def new_user_def Let_def do_login_def unique_violation_def list_ex_iff
        form_validate_on_submit_def is_submitted_def)

theorem signup_drops_session_witness:
  "add_user_to_g demo_db (Some 1) = Some (mk_user 1 ''u1'')
   \<and> meth (demo_post\<lparr>meth := GET\<rparr>) = GET
   \<and> sess (signup demo_env demo_db (Some 1) (demo_post\<lparr>meth := GET\<rparr>)) = None
   \<and> \<not> form_validate_on_submit (demo_post\<lparr>fields_ok := False\<rparr>)
   \<and> sess (signup demo_env demo_db (Some 1) (demo_post\<lparr>fields_ok := False\<rparr>)) = None
   \<and> (\<exists>v \<in> set (users demo_db). username v = f_username (demo_post\<lparr>f_email := ''u3@x.org''\<rparr>)
         \<or> email v = f_email (demo_post\<lparr>f_email := ''u3@x.org''\<rparr>))
   \<and> sess (signup demo_env demo_db (Some 1) (demo_post\<lparr>f_email := ''u3@x.org''\<rparr>)) = None
   \<and> users (store (signup demo_env demo_db (Some 1) (demo_post\<lparr>f_email := ''u3@x.org''\<rparr>)))
       = users demo_db"
proof -
  let ?get = "demo_post\<lparr>meth := GET\<rparr>"
  let ?bad = "demo_post\<lparr>fields_ok := False\<rparr>"
  let ?dup = "demo_post\<lparr>f_email := ''u3@x.org''\<rparr>"
  have a: "meth ?get = GET" by simp
  have b: "\<not> form_validate_on_submit ?bad"
    by (simp add: form_validate_on_submit_def)
  have c: "\<exists>v \<in> set (users demo_db). username v = f_username ?dup \<or> email v = f_email ?dup"
    by (simp add: demo_defs)
  from a b c demo_g_user
    signup_drops_session [of ?get demo_env demo_db "Some 1"]
    signup_drops_session [of ?bad demo_env demo_db "Some 1"]
    signup_drops_session [of ?dup demo_env demo_db "Some 1"]
  show ?thesis by simp
qed

section \<open>Editing the profile\<close>

text \<open>
  C7. For a signed-in account, a valid edit submission whose password does not
  re-authenticate the account renders the edit form again with "Incorrect password" and
  leaves the store, so every profile field, as it was; and whenever an edit request
  changes the store, the submission was valid and the password re-authenticated the
  account.
\<close>

theorem profile_reauthentication:
  assumes "add_user_to_g d s = Some u"
  shows "(form_validate_on_submit req \<and> authenticate e d (username u) (f_password req) = None \<longrightarrow>
            profile e d s req =
              \<lparr>resp = Render ''users/edit.html'', flashed = [(''Incorrect password'', ''danger'')],
               store = d, sess = s\<rparr>)
     \<and> (store (profile e d s req) \<noteq> d \<longrightarrow>
            form_validate_on_submit req
          \<and> authenticate e d (username u) (f_password req) \<noteq> None)"
  using assms
  by (auto simp: profile_def Let_def split: option.splits)

theorem profile_reauthentication_witness:
  "authenticate demo_env demo_db (username (mk_user 1 ''u1'')) (f_password (demo_post\<lparr>f_password := ''guess''\<rparr>)) = None
   \<and> profile demo_env demo_db (Some 1) (demo_post\<lparr>f_password := ''guess''\<rparr>) =
        \<lparr>resp = Render ''users/edit.html'', flashed = [(''Incorrect password'', ''danger'')],
         store = demo_db, sess = Some 1\<rparr>
   \<and> store (profile demo_env demo_db (Some 1) demo_post) \<noteq> demo_db
   \<and> bio (the (get_user (store (profile demo_env demo_db (Some 1) demo_post)) 1)) = ''bio''
   \<and> authenticate demo_env demo_db (username (mk_user 1 ''u1'')) (f_password demo_post) \<noteq> None"
proof -
  let ?bad = "demo_post\<lparr>f_password := ''guess''\<rparr>"
  have f: "form_validate_on_submit ?bad"
    by (simp add: form_validate_on_submit_def is_submitted_def demo_post_def)
  have n: "authenticate demo_env demo_db (username (mk_user 1 ''u1'')) (f_password ?bad) = None"
    by (simp add: authenticate_def demo_defs)
  have y: "authenticate demo_env demo_db (username (mk_user 1 ''u1'')) (f_password demo_post)
             = Some (mk_user 1 ''u1'')"
    by (simp add: authenticate_def demo_defs)
  have us: "users (store (profile demo_env demo_db (Some 1) demo_post)) =
     [(mk_user 1 ''u1'')\<lparr>username := ''u4'', email := ''u4@x.org'',
         image_url := ''/static/images/default-pic.png'',
         header_image_url := ''/static/images/warbler-hero.jpg'', bio := ''bio''\<rparr>,
      mk_user 2 ''u2'', mk_user 3 ''u3'']"
    unfolding profile_def demo_g_user
    by (simp only: option.case demo_form if_True y)
      (simp add: Let_def unique_violation_def demo_defs)
  have ch: "store (profile demo_env demo_db (Some 1) demo_post) \<noteq> demo_db"
  proof
    assume "store (profile demo_env demo_db (Some 1) demo_post) = demo_db"
    then have "users (store (profile demo_env demo_db (Some 1) demo_post)) = users demo_db"
      by simp
    then show False unfolding us by (simp add: demo_defs)
  qed
  have b: "bio (the (get_user (store (profile demo_env demo_db (Some 1) demo_post)) 1)) = ''bio''"
    unfolding get_user_def us by (simp add: demo_defs)
  from f n ch b
    profile_reauthentication [OF demo_g_user, of ?bad demo_env]
    profile_reauthentication [OF demo_g_user, of demo_post demo_env]
  show ?thesis by blast
qed

section \<open>Deleting a message\<close>

text \<open>
  C3. \<^verbatim>\<open>delete_message\<close> run by account 1 on message 3, which account 3 owns: the handler
  looks the message up and deletes it without comparing its owner with the acting
  account, although its docstring announces that check. The message is gone afterwards.
\<close>

theorem delete_message_of_other_account:
  "add_user_to_g demo_db (Some 1) = Some (mk_user 1 ''u1'')
   \<and> get_message demo_db 3 = Some (mk_message 3 3 3)
   \<and> user_id (mk_message 3 3 3) \<noteq> u_id (mk_user 1 ''u1'')
   \<and> resp (delete_message demo_db (Some 1) demo_post 3) = Redirect (UserPage 1)
   \<and> messages (store (delete_message demo_db (Some 1) demo_post 3)) =
        [mk_message 1 1 2, mk_message 2 2 2, mk_message 4 4 1]
   \<and> get_message (store (delete_message demo_db (Some 1) demo_post 3)) 3 = None"
proof -
  have m: "get_message demo_db 3 = Some (mk_message 3 3 3)"
    by (simp add: get_message_def demo_defs)
  have o: "user_id (mk_message 3 3 3) \<noteq> u_id (mk_user 1 ''u1'')"
    by (simp add: demo_defs)
  have r: "delete_message demo_db (Some 1) demo_post 3 =
     \<lparr>resp = Redirect (UserPage (u_id (mk_user 1 ''u1''))), flashed = [],
      store = delete_message_row (m_id (mk_message 3 3 3)) demo_db, sess = Some 1\<rparr>"
    unfolding delete_message_def demo_g_user by (simp add: demo_csrf m)
  have ms: "messages (delete_message_row (m_id (mk_message 3 3 3)) demo_db) =
       [mk_message 1 1 2, mk_message 2 2 2, mk_message 4 4 1]"
    by (simp add: delete_message_row_def demo_defs)
  have g: "get_message (delete_message_row (m_id (mk_message 3 3 3)) demo_db) 3 = None"
    unfolding get_message_def ms by (simp add: mk_message_def)
  from demo_g_user m o r ms g show ?thesis by (simp add: mk_user_def)
qed

section \<open>The authorization gate\<close>

text \<open>
  C4, as stated, fails on \<^verbatim>\<open>add_message\<close>: with a signed-in account and an invalid
  anti-forgery token the handler renders the compose form again, with no flashed
  message, which is not the "access unauthorized" outcome.
\<close>

theorem add_message_bad_token_counterexample:
  "add_user_to_g demo_db (Some 1) \<noteq> None
   \<and> \<not> csrf_token_ok (demo_post\<lparr>csrf_token_ok := False\<rparr>)
   \<and> add_message demo_db (Some 1) (demo_post\<lparr>csrf_token_ok := False\<rparr>) =
        \<lparr>resp = Render ''messages/create.html'', flashed = [], store = demo_db, sess = Some 1\<rparr>
   \<and> add_message demo_db (Some 1) (demo_post\<lparr>csrf_token_ok := False\<rparr>)
        \<noteq> unauthorized demo_db (Some 1)"
proof -
  have r: "add_message demo_db (Some 1) (demo_post\<lparr>csrf_token_ok := False\<rparr>) =
        \<lparr>resp = Render ''messages/create.html'', flashed = [], store = demo_db, sess = Some 1\<rparr>"
    unfolding add_message_def demo_g_user by (simp add: form_validate_on_submit_def)
  have "resp (add_message demo_db (Some 1) (demo_post\<lparr>csrf_token_ok := False\<rparr>))
          \<noteq> resp (unauthorized demo_db (Some 1))"
    unfolding r by (simp add: unauthorized_def)
  then have ne: "add_message demo_db (Some 1) (demo_post\<lparr>csrf_token_ok := False\<rparr>)
        \<noteq> unauthorized demo_db (Some 1)"
    by auto
  from r ne demo_g_user show ?thesis by simp
qed

text \<open>
  C4, amended. Take a request whose session names no existing account or whose
  anti-forgery token is missing or invalid. The six POST routes guarded by the
  token-only form (logout, follow, unfollow, delete account, like, delete message)
  answer a POST with the one outcome \<open>unauthorized\<close>, whichever of the two causes
  applies, and so leave the store alone. The two handlers with a form of their own
  (compose message, edit profile) give \<open>unauthorized\<close> when the session names no
  account; when it names one, so that the token is the cause, they render their form
  again with nothing flashed; in both cases they leave the store and the session alone.
\<close>

theorem gate_closed:
  assumes "add_user_to_g d s = None \<or> \<not> csrf_token_ok req"
  shows "(meth req = POST \<longrightarrow>
            logout d s req = unauthorized d s
          \<and> start_following d s req i = unauthorized d s
          \<and> stop_following d s req i = unauthorized d s
          \<and> delete_user d s req = unauthorized d s
          \<and> like_message d s req i = unauthorized d s
          \<and> delete_message d s req i = unauthorized d s)
     \<and> (add_user_to_g d s = None \<longrightarrow>
            add_message d s req = unauthorized d s
          \<and> profile e d s req = unauthorized d s)
     \<and> (add_user_to_g d s \<noteq> None \<longrightarrow>
            add_message d s req =
              \<lparr>resp = Render ''messages/create.html'', flashed = [], store = d, sess = s\<rparr>
          \<and> profile e d s req =
              \<lparr>resp = Render ''users/edit.html'', flashed = [], store = d, sess = s\<rparr>)
     \<and> store (add_message d s req) = d
     \<and> store (profile e d s req) = d
     \<and> sess (add_message d s req) = s
     \<and> sess (profile e d s req) = s"
proof -
  from assms have g: "add_user_to_g d s = None \<or> \<not> csrf_validate_on_submit req"
    by (auto simp: csrf_validate_on_submit_def)
  from assms have f: "add_user_to_g d s = None \<or> \<not> form_validate_on_submit req"
    by (auto simp: form_validate_on_submit_def)
  have 1: "logout d s req = unauthorized d s"
    using g by (auto simp: logout_def split: option.splits)
  have 2: "start_following d s req i = unauthorized d s"
    using g by (auto simp: start_following_def split: option.splits)
  have 3: "stop_following d s req i = unauthorized d s"
    using g by (auto simp: stop_following_def split: option.splits)
  have 4: "delete_user d s req = unauthorized d s"
    using g by (auto simp: delete_user_def split: option.splits)
  have 5: "like_message d s req i = unauthorized d s"
    using g by (auto simp: like_message_def split: option.splits)
  have 6: "delete_message d s req i = unauthorized d s"
    using g by (auto simp: delete_message_def split: option.splits)
  have 7: "add_user_to_g d s = None \<longrightarrow>
          add_message d s req = unauthorized d s \<and> profile e d s req = unauthorized d s"
    by (simp add: add_message_def profile_def)
  have 8: "add_user_to_g d s \<noteq> None \<longrightarrow>
          add_message d s req =
            \<lparr>resp = Render ''messages/create.html'', flashed = [], store = d, sess = s\<rparr>"
    using f by (auto simp: add_message_def)
  have 9: "add_user_to_g d s \<noteq> None \<longrightarrow>
          profile e d s req =
            \<lparr>resp = Render ''users/edit.html'', flashed = [], store = d, sess = s\<rparr>"
    using f by (auto simp: profile_def)
  have 10: "store (add_message d s req) = d \<and> sess (add_message d s req) = s"
    using f by (auto simp: add_message_def unauthorized_def split: option.splits)
  have 11: "store (profile e d s req) = d \<and> sess (profile e d s req) = s"
    using f by (auto simp: profile_def unauthorized_def split: option.splits)
  from 1 2 3 4 5 6 7 8 9 10 11 show ?thesis by blast
qed

theorem gate_closed_witness:
  "meth demo_post = POST
   \<and> add_user_to_g demo_db None = None
   \<and> like_message demo_db None demo_post 1 = unauthorized demo_db None
   \<and> delete_user demo_db None demo_post = unauthorized demo_db None
   \<and> add_message demo_db None demo_post = unauthorized demo_db None
   \<and> profile demo_env demo_db None demo_post = unauthorized demo_db None
   \<and> meth (demo_post\<lparr>csrf_token_ok := False\<rparr>) = POST
   \<and> add_user_to_g demo_db (Some 1) \<noteq> None
   \<and> \<not> csrf_token_ok (demo_post\<lparr>csrf_token_ok := False\<rparr>)
   \<and> like_message demo_db (Some 1) (demo_post\<lparr>csrf_token_ok := False\<rparr>) 1
        = unauthorized demo_db (Some 1)
   \<and> delete_message demo_db (Some 1) (demo_post\<lparr>csrf_token_ok := False\<rparr>) 1
        = unauthorized demo_db (Some 1)
   \<and> add_message demo_db (Some 1) (demo_post\<lparr>csrf_token_ok := False\<rparr>) =
        \<lparr>resp = Render ''messages/create.html'', flashed = [], store = demo_db, sess = Some 1\<rparr>
   \<and> profile demo_env demo_db (Some 1) (demo_post\<lparr>csrf_token_ok := False\<rparr>) =
        \<lparr>resp = Render ''users/edit.html'', flashed = [], store = demo_db, sess = Some 1\<rparr>"
proof -
  let ?bad = "demo_post\<lparr>csrf_token_ok := False\<rparr>"
  have p: "meth demo_post = POST" by (simp add: demo_post_def)
  have p': "meth ?bad = POST" by (simp add: demo_post_def)
  have a: "add_user_to_g demo_db None = None"
    by (simp add: add_user_to_g_def)
  have b: "\<not> csrf_token_ok ?bad" by simp
  have c: "add_user_to_g demo_db (Some 1) \<noteq> None"
    by (simp only: demo_g_user) simp
  have a': "add_user_to_g demo_db None = None \<or> \<not> csrf_token_ok demo_post"
    using a by simp
  have b': "add_user_to_g demo_db (Some 1) = None \<or> \<not> csrf_token_ok ?bad"
    using b by simp
  from p p' a b c
    gate_closed [OF a', of 1 demo_env]
    gate_closed [OF b', of 1 demo_env]
  show ?thesis by blast
qed

end
